theory Spec2Isabelle
  imports Main
begin

section \<open>Text, exceptions and warnings\<close>

text \<open>
  The macro engine of \<^verbatim>\<open>dwh_migration_client/macro_expander.py\<close> works on Python
  strings. A text is a \<^typ>\<open>string\<close>; one \<^typ>\<open>char\<close> stands for one code point of the
  Python string, so the development covers texts over the code points below 256.

  Exceptions are values. \<open>KeyError\<close> is what \<^verbatim>\<open>set.pop\<close> raises on an empty set,
  \<open>NameError\<close> is what the evaluation of an unbound name raises, \<open>ReError\<close> is
  \<^verbatim>\<open>re.error\<close>, and \<open>IndexError\<close> is what the \<^verbatim>\<open>re\<close> module raises for an
  unknown group name in a replacement template.
\<close>

datatype error = KeyError | NameError | ReError | IndexError

text \<open>
  The calls of \<^verbatim>\<open>logging.warn\<close>: the warning of \<^verbatim>\<open>_substitution\<close> carries the
  matched text, the warning of \<^verbatim>\<open>_sanity_check\<close> the replacement value and its
  originals.
\<close>

datatype warning =
  CouldNotExpand string
| NotAccurate string "string list"

definition backslash :: char where
  "backslash = CHR 0x5C"

text \<open>
  Lower case of one code point below 256, as \<^verbatim>\<open>str.lower\<close> and the case-insensitive
  matching of \<^verbatim>\<open>re.I\<close> use it: the letters A to Z and the capital letters of the
  Latin-1 block (0xC0 to 0xDE, without the multiplication sign 0xD7) move up by 32.
\<close>

definition lower_char :: "char \<Rightarrow> char" where
  "lower_char c =
     (let n = (of_char c :: nat)
      in if (65 \<le> n \<and> n \<le> 90) \<or> (192 \<le> n \<and> n \<le> 214) \<or> (216 \<le> n \<and> n \<le> 222)
         then char_of (n + 32) else c)"

definition lower :: "string \<Rightarrow> string" where
  "lower s = map lower_char s"

text \<open>
  The characters that \<^verbatim>\<open>\w\<close> matches in a Python 3 string pattern, below 256: the
  alphanumeric code points and the underscore.
\<close>

definition is_word :: "char \<Rightarrow> bool" where
  "is_word c =
     (let n = (of_char c :: nat)
      in (48 \<le> n \<and> n \<le> 57) \<or> (65 \<le> n \<and> n \<le> 90) \<or> n = 95 \<or> (97 \<le> n \<and> n \<le> 122)
         \<or> n = 170 \<or> n = 178 \<or> n = 179 \<or> n = 181 \<or> n = 185 \<or> n = 186
         \<or> (188 \<le> n \<and> n \<le> 190) \<or> (192 \<le> n \<and> n \<le> 214) \<or> (216 \<le> n \<and> n \<le> 246)
         \<or> 248 \<le> n)"

section \<open>The compiled pattern and \<^verbatim>\<open>pattern.sub\<close>\<close>

text \<open>
  \<^verbatim>\<open>re.compile(pattern, re.I)\<close> is library code. A compiled pattern is represented
  by its search function: \<open>rx text pos adv\<close> is the leftmost match of the pattern in
  \<open>text\<close> that starts at or after \<open>pos\<close>, as (start, end, group 1); with \<open>adv\<close> set the
  empty match at \<open>pos\<close> itself is not admitted (the engine's rule after an empty match).
\<close>

type_synonym regex = "string \<Rightarrow> nat \<Rightarrow> bool \<Rightarrow> (nat \<times> nat \<times> string) option"

text \<open>
  \<^verbatim>\<open>pattern.sub(callback, text)\<close>: the text before each match is copied, the callback
  is called on the match, in text order, and its result is copied as it is (a callback's
  result is not a template). The callback gets the matched text \<^verbatim>\<open>match.group(0)\<close>
  and \<^verbatim>\<open>match.group(1)\<close>, and threads the state \<open>st\<close>. A search result outside the
  text ends the scan, which keeps the function total for any \<open>rx\<close>.
\<close>

definition valid_match :: "string \<Rightarrow> nat \<Rightarrow> bool \<Rightarrow> nat \<Rightarrow> nat \<Rightarrow> bool" where
  "valid_match text pos adv b e =
     (pos \<le> b \<and> b \<le> e \<and> e \<le> length text \<and> (if adv then pos < e else True))"

function sub_loop ::
  "regex \<Rightarrow> (string \<Rightarrow> string \<Rightarrow> 's \<Rightarrow> string \<times> 's) \<Rightarrow> string \<Rightarrow> nat \<Rightarrow> bool \<Rightarrow> 's
     \<Rightarrow> string \<times> 's" where
  "sub_loop rx f text pos adv st =
     (case rx text pos adv of
        None \<Rightarrow> (drop pos text, st)
      | Some (b, e, g) \<Rightarrow>
          if valid_match text pos adv b e
          then (case f (take (e - b) (drop b text)) g st of
                  (item, st') \<Rightarrow>
                    (case sub_loop rx f text e (e = b) st' of
                       (rest, st'') \<Rightarrow> (take (b - pos) (drop pos text) @ item @ rest, st'')))
          else (drop pos text, st))"
  by pat_completeness auto
termination
  by (relation "measure (\<lambda>(rx, f, text, pos, adv, st).
        2 * (length text - pos) + (if adv then 0 else 1))")
    (auto simp: valid_match_def split: if_splits)

declare sub_loop.simps [simp del]

definition re_sub ::
  "regex \<Rightarrow> (string \<Rightarrow> string \<Rightarrow> 's \<Rightarrow> string \<times> 's) \<Rightarrow> string \<Rightarrow> 's \<Rightarrow> string \<times> 's" where
  "re_sub rx f text st = sub_loop rx f text 0 False st"

text \<open>
  The matched texts that \<^verbatim>\<open>pattern.sub\<close> visits in a text, in order: the same scan
  with a callback that copies the match and writes it down.
\<close>

definition occurrences :: "regex \<Rightarrow> string \<Rightarrow> string list" where
  "occurrences rx text = snd (re_sub rx (\<lambda>m g acc. (m, acc @ [m])) text [])"

text \<open>
  The pattern of the repository's expander, \<^verbatim>\<open>\$\{(\w+)\}\<close>: a dollar sign, an opening
  brace, the longest run of word characters, which must not be empty, and a closing brace.
  (A closing brace is not a word character, so no shorter run can match.)
\<close>

definition macro_at :: "string \<Rightarrow> (nat \<times> string) option" where
  "macro_at s =
     (case s of
        c1 # c2 # r \<Rightarrow>
          (let w = takeWhile is_word r
           in if c1 = CHR ''$'' \<and> c2 = CHR ''{'' \<and> w \<noteq> [] \<and> take 1 (drop (length w) r) = ''}''
              then Some (length w + 3, w) else None)
      | _ \<Rightarrow> None)"

fun macro_scan :: "string \<Rightarrow> nat \<Rightarrow> (nat \<times> nat \<times> string) option" where
  "macro_scan [] i = None"
| "macro_scan (c # cs) i =
     (case macro_at (c # cs) of
        Some (n, g) \<Rightarrow> Some (i, i + n, g)
      | None \<Rightarrow> macro_scan cs (Suc i))"

definition macro_pattern :: regex where
  "macro_pattern text pos adv = macro_scan (drop pos text) pos"

section \<open>MacroExpander\<close>

text \<open>
  The fields of the class. \<open>reverse\<close> maps a file name to a dictionary from replacement
  to (count, originals); Python iterates a dictionary in insertion order, so the inner
  dictionary is an association list in that order. A set of originals is a list without
  duplicates whose order carries no meaning (see \<open>set_pop\<close>). \<open>warnings\<close> collects what
  the expander logged.
\<close>

record MacroExpander =
  pattern :: regex
  mapping :: "(string \<rightharpoonup> string) option"
  generator :: "(string \<Rightarrow> string \<Rightarrow> string) option"
  un_generator :: "(string \<Rightarrow> string \<Rightarrow> string \<Rightarrow> string) option"
  reverse :: "string \<rightharpoonup> (string \<times> nat \<times> string list) list"
  unmapped :: "string \<rightharpoonup> string set"
  warnings :: "warning list"

text \<open>The dictionary \<^verbatim>\<open>self.reverse[file_name]\<close>, empty when the file has none.\<close>

definition entries_of :: "MacroExpander \<Rightarrow> string \<Rightarrow> (string \<times> nat \<times> string list) list" where
  "entries_of self file_name = (case reverse self file_name of None \<Rightarrow> [] | Some r \<Rightarrow> r)"

definition init ::
  "regex \<Rightarrow> (string \<rightharpoonup> string) option \<Rightarrow> (string \<Rightarrow> string \<Rightarrow> string) option
     \<Rightarrow> (string \<Rightarrow> string \<Rightarrow> string \<Rightarrow> string) option \<Rightarrow> MacroExpander" where
  "init p m g u =
     \<lparr>pattern = p, mapping = m, generator = g, un_generator = u,
      reverse = Map.empty, unmapped = Map.empty, warnings = []\<rparr>"

text \<open>
  \<^verbatim>\<open>reverse_for_file[generated] = ...\<close>: an existing key keeps its place, a new key
  goes to the end.
\<close>

fun dict_set :: "string \<Rightarrow> 'v \<Rightarrow> (string \<times> 'v) list \<Rightarrow> (string \<times> 'v) list" where
  "dict_set k v [] = [(k, v)]"
| "dict_set k v ((k', v') # kvs) =
     (if k' = k then (k, v) # kvs else (k', v') # dict_set k v kvs)"

text \<open>
  \<^verbatim>\<open>_substitution\<close>. In the generator branch the source calls
  \<^verbatim>\<open>self.unmapped[file_name].union(macro_name)\<close> when the file already has an entry:
  \<^verbatim>\<open>union\<close> builds a new set and the source drops it, so \<open>unmapped\<close> stays as it is.
\<close>

definition substitution ::
  "string \<Rightarrow> string \<Rightarrow> string \<Rightarrow> MacroExpander \<Rightarrow> string \<times> MacroExpander" where
  "substitution file_name full_match macro_name self =
     (case
        (case (case mapping self of None \<Rightarrow> None | Some m \<Rightarrow> m macro_name) of
           Some v \<Rightarrow> (v, self)
         | None \<Rightarrow>
             (case generator self of
                Some gen \<Rightarrow>
                  (gen file_name macro_name,
                   (case unmapped self file_name of
                      Some names \<Rightarrow> self
                    | None \<Rightarrow> self\<lparr>unmapped := (unmapped self)(file_name \<mapsto> {macro_name})\<rparr>))
              | None \<Rightarrow>
                  (full_match,
                   self\<lparr>warnings := warnings self @ [CouldNotExpand full_match]\<rparr>)))
      of (generated, self1) \<Rightarrow>
        (let reverse_for_file = entries_of self1 file_name;
             entry = (case map_of reverse_for_file generated of
                        Some (n, originals) \<Rightarrow> (n + 1, List.insert full_match originals)
                      | None \<Rightarrow> (1, [full_match]))
         in (generated,
             self1\<lparr>reverse := (reverse self1)(file_name \<mapsto> dict_set generated entry reverse_for_file)\<rparr>)))"

definition expand :: "MacroExpander \<Rightarrow> string \<Rightarrow> string \<Rightarrow> string \<times> MacroExpander" where
  "expand self file_name text = re_sub (pattern self) (substitution file_name) text self"

section \<open>\<^verbatim>\<open>re.subn\<close> on an escaped literal\<close>

text \<open>
  \<^verbatim>\<open>un_expand\<close> calls \<^verbatim>\<open>re.subn(re.escape(replacement), repl, text)\<close>. The pattern is
  the replacement value as a fixed string; \<open>repl\<close> is a string, and \<^verbatim>\<open>re\<close> reads a
  string replacement as a template: it is cut into single characters and pairs of a
  backslash and the character after it. The result of \<open>tokenize\<close> is the tokens and whether
  a lone backslash stands at the very end, which is an error.
\<close>

datatype token = Chr char | Esc char

fun tokenize :: "string \<Rightarrow> token list \<times> bool" where
  "tokenize [] = ([], False)"
| "tokenize [c] = (if c = backslash then ([], True) else ([Chr c], False))"
| "tokenize (c # d # ds) =
     (if c = backslash then (case tokenize ds of (ts, dangling) \<Rightarrow> (Esc d # ts, dangling))
      else (case tokenize (d # ds) of (ts, dangling) \<Rightarrow> (Chr c # ts, dangling)))"

definition token_text :: "token list \<Rightarrow> string" where
  "token_text ts = concat (map (\<lambda>t. case t of Chr c \<Rightarrow> [c] | Esc c \<Rightarrow> [backslash, c]) ts)"

text \<open>
  The pieces of a parsed template: literal text, or the whole match (group 0, the only
  group of an escaped literal).
\<close>

datatype piece = Literal string | WholeMatch

definition followed_by :: "piece \<Rightarrow> error + piece list \<Rightarrow> error + piece list" where
  "followed_by p r = (case r of Inl e \<Rightarrow> Inl e | Inr ps \<Rightarrow> Inr (p # ps))"

definition oct_digit :: "token \<Rightarrow> nat option" where
  "oct_digit t =
     (case t of
        Chr c \<Rightarrow> (let n = (of_char c :: nat) in if 48 \<le> n \<and> n \<le> 55 then Some (n - 48) else None)
      | Esc c \<Rightarrow> None)"

definition ascii_letter :: "char \<Rightarrow> bool" where
  "ascii_letter c = (let n = (of_char c :: nat) in (65 \<le> n \<and> n \<le> 90) \<or> (97 \<le> n \<and> n \<le> 122))"

text \<open>The table \<^verbatim>\<open>ESCAPES\<close> of the template parser: a, b, f, n, r, t, v and the backslash.\<close>

definition escapes :: "char \<Rightarrow> char option" where
  "escapes c =
     (if c = CHR ''a'' then Some (CHR 0x07) else if c = CHR ''b'' then Some (CHR 0x08)
      else if c = CHR ''f'' then Some (CHR 0x0C) else if c = CHR ''n'' then Some (CHR 0x0A)
      else if c = CHR ''r'' then Some (CHR 0x0D) else if c = CHR ''t'' then Some (CHR 0x09)
      else if c = CHR ''v'' then Some (CHR 0x0B) else if c = backslash then Some backslash
      else None)"

text \<open>
  \<^verbatim>\<open>str.isidentifier\<close> on code points below 256: a letter or an underscore, then
  letters, underscores, digits and the middle dot.
\<close>

definition id_start :: "char \<Rightarrow> bool" where
  "id_start c =
     (let n = (of_char c :: nat)
      in (65 \<le> n \<and> n \<le> 90) \<or> n = 95 \<or> (97 \<le> n \<and> n \<le> 122) \<or> n = 170 \<or> n = 181 \<or> n = 186
         \<or> (192 \<le> n \<and> n \<le> 214) \<or> (216 \<le> n \<and> n \<le> 246) \<or> 248 \<le> n)"

definition id_continue :: "char \<Rightarrow> bool" where
  "id_continue c =
     (let n = (of_char c :: nat) in id_start c \<or> (48 \<le> n \<and> n \<le> 57) \<or> n = 183)"

definition isidentifier :: "string \<Rightarrow> bool" where
  "isidentifier s = (case s of [] \<Rightarrow> False | c # cs \<Rightarrow> id_start c \<and> list_all id_continue cs)"

text \<open>
  Which group names, other than identifiers, stand for group 0. The \<^verbatim>\<open>re\<close> module of
  Python 3.12 and later takes a name of ASCII digits as a number, so the names of group 0
  consist of the digit 0. Up to Python 3.11 it takes whatever \<^verbatim>\<open>int\<close> reads, so blanks
  around the number, a sign, and single underscores between the digits are admitted
  (\<^verbatim>\<open>+0\<close>, \<^verbatim>\<open>-0\<close>, \<^verbatim>\<open>0_0\<close>). The version is a parameter of \<open>re_subn\<close> and of
  the functions that call it.
\<close>

datatype re_version = UpTo311 | From312

definition py_space :: "char \<Rightarrow> bool" where
  "py_space c =
     (let n = (of_char c :: nat)
      in (9 \<le> n \<and> n \<le> 13) \<or> (28 \<le> n \<and> n \<le> 32) \<or> n = 133 \<or> n = 160)"

fun zeros :: "string \<Rightarrow> bool" where
  "zeros [] = False"
| "zeros [c] = (c = CHR ''0'')"
| "zeros (c # d # r) = (c = CHR ''0'' \<and> (if d = CHR ''_'' then zeros r else zeros (d # r)))"

definition reads_zero :: "re_version \<Rightarrow> string \<Rightarrow> bool" where
  "reads_zero ver name =
     (case ver of
        From312 \<Rightarrow> (case name of [] \<Rightarrow> False | c # cs \<Rightarrow> list_all (\<lambda>x. x = CHR ''0'') (c # cs))
      | UpTo311 \<Rightarrow>
          (let s = rev (dropWhile py_space (rev (dropWhile py_space name)))
           in zeros (if take 1 s = ''+'' \<or> take 1 s = ''-'' then drop 1 s else s)))"

text \<open>
  The name of \<^verbatim>\<open>\g<name>\<close>: the tokens up to the first \<^verbatim>\<open>>\<close>, and the tokens after
  it. \<open>None\<close> when the \<^verbatim>\<open><\<close> or the \<^verbatim>\<open>>\<close> is missing or the name is empty.
\<close>

fun until_gt :: "token list \<Rightarrow> (token list \<times> token list) option" where
  "until_gt [] = None"
| "until_gt (t # ts) =
     (if t = Chr (CHR ''>'') then Some ([], ts)
      else map_option (\<lambda>(name, rest). (t # name, rest)) (until_gt ts))"

definition group_name :: "token list \<Rightarrow> (token list \<times> token list) option" where
  "group_name ts =
     (case ts of
        [] \<Rightarrow> None
      | t # ts' \<Rightarrow>
          (if t = Chr (CHR ''<'') then
             (case until_gt ts' of
                None \<Rightarrow> None
              | Some (name, rest) \<Rightarrow> if name = [] then None else Some (name, rest))
           else None))"

lemma until_gt_shorter: "until_gt ts = Some (name, rest) \<Longrightarrow> length rest < length ts"
  by (induction ts arbitrary: name) (auto split: if_splits)

lemma group_name_shorter: "group_name ts = Some (name, rest) \<Longrightarrow> length rest < length ts"
  by (auto simp: group_name_def split: list.splits if_splits option.splits
      dest: until_gt_shorter)

text \<open>
  The template parser, for a pattern without groups of its own. It works through the
  tokens from the left and raises at the first fault. After a backslash:
  \<^item> \<^verbatim>\<open>g<name>\<close> is a group reference. An identifier is an unknown group name
    (\<open>IndexError\<close>), a name of group 0 gives the whole match, and every other name is a
    bad name or an invalid reference (\<open>ReError\<close>).
  \<^item> \<^verbatim>\<open>0\<close> starts an octal escape of up to three digits.
  \<^item> another digit starts an octal escape when three octal digits stand there (a value
    above 0o377 is an error), and an invalid group reference otherwise.
  \<^item> a character of \<^verbatim>\<open>ESCAPES\<close> gives its control character, another ASCII letter is
    a bad escape, and any other character stays with its backslash.

  The tokenizer reads one token ahead, so the lone backslash at the end is reported when
  the last token is taken: before a fault of that token, after every earlier one. Every
  fault but the unknown group name is \<open>ReError\<close>, so the order matters for a group
  reference that ends the tokens only.
\<close>

function parse_template :: "re_version \<Rightarrow> bool \<Rightarrow> token list \<Rightarrow> error + piece list" where
  "parse_template ver dangling [] = (if dangling then Inl ReError else Inr [])"
| "parse_template ver dangling (Chr c # ts) =
     followed_by (Literal [c]) (parse_template ver dangling ts)"
| "parse_template ver dangling (Esc c # ts) =
     (if c = CHR ''g'' then
        (case group_name ts of
           None \<Rightarrow> Inl ReError
         | Some (name, rest) \<Rightarrow>
             if rest = [] \<and> dangling then Inl ReError
             else if isidentifier (token_text name) then Inl IndexError
             else if reads_zero ver (token_text name)
               then followed_by WholeMatch (parse_template ver dangling rest)
             else Inl ReError)
      else if c = CHR ''0'' then
        (case ts of
           [] \<Rightarrow> followed_by (Literal [CHR 0x00]) (parse_template ver dangling [])
         | t1 # ts1 \<Rightarrow>
             (case oct_digit t1 of
                None \<Rightarrow> followed_by (Literal [CHR 0x00]) (parse_template ver dangling (t1 # ts1))
              | Some d1 \<Rightarrow>
                  (case ts1 of
                     [] \<Rightarrow> followed_by (Literal [char_of d1]) (parse_template ver dangling [])
                   | t2 # ts2 \<Rightarrow>
                       (case oct_digit t2 of
                          None \<Rightarrow>
                            followed_by (Literal [char_of d1]) (parse_template ver dangling (t2 # ts2))
                        | Some d2 \<Rightarrow>
                            followed_by (Literal [char_of (8 * d1 + d2)])
                              (parse_template ver dangling ts2)))))
      else if oct_digit (Chr c) \<noteq> None then
        (case ts of
           t1 # t2 # ts2 \<Rightarrow>
             (case (oct_digit (Chr c), oct_digit t1, oct_digit t2) of
                (Some d0, Some d1, Some d2) \<Rightarrow>
                  if 64 * d0 + 8 * d1 + d2 > 255 then Inl ReError
                  else followed_by (Literal [char_of (64 * d0 + 8 * d1 + d2)])
                         (parse_template ver dangling ts2)
              | _ \<Rightarrow> Inl ReError)
         | _ \<Rightarrow> Inl ReError)
      else if c = CHR ''8'' \<or> c = CHR ''9'' then Inl ReError
      else
        (case escapes c of
           Some x \<Rightarrow> followed_by (Literal [x]) (parse_template ver dangling ts)
         | None \<Rightarrow>
             if ascii_letter c then Inl ReError
             else followed_by (Literal [backslash, c]) (parse_template ver dangling ts)))"
  by pat_completeness auto
termination
  by (relation "measure (\<lambda>(ver, dangling, ts). length ts)") (auto dest: group_name_shorter)

definition render :: "piece list \<Rightarrow> string \<Rightarrow> string" where
  "render ps m = concat (map (\<lambda>p. case p of Literal s \<Rightarrow> s | WholeMatch \<Rightarrow> m) ps)"

text \<open>
  Matching the fixed string at the head of the text, one character of the text for each
  character of the string; with \<^verbatim>\<open>re.I\<close> two characters match when their lower cases
  are equal.
\<close>

fun matches_at :: "bool \<Rightarrow> string \<Rightarrow> string \<Rightarrow> bool" where
  "matches_at ic [] cs = True"
| "matches_at ic (p # ps) [] = False"
| "matches_at ic (p # ps) (c # cs) =
     ((if ic then lower_char p = lower_char c else p = c) \<and> matches_at ic ps cs)"

text \<open>
  Every non-overlapping occurrence of the fixed string, from the left, is replaced by
  what \<open>f\<close> makes of the matched text. The empty string matches before every character and
  at the end.
\<close>

function replace_literal :: "bool \<Rightarrow> string \<Rightarrow> (string \<Rightarrow> string) \<Rightarrow> string \<Rightarrow> string" where
  "replace_literal ic lit f [] = (if lit = [] then f [] else [])"
| "replace_literal ic lit f (c # cs) =
     (if lit = [] then f [] @ c # replace_literal ic lit f cs
      else if matches_at ic lit (c # cs)
        then f (take (length lit) (c # cs)) @ replace_literal ic lit f (drop (length lit - 1) cs)
      else c # replace_literal ic lit f cs)"
  by pat_completeness auto
termination
  by (relation "measure (\<lambda>(ic, lit, f, cs). length cs)") auto

definition re_subn :: "re_version \<Rightarrow> bool \<Rightarrow> string \<Rightarrow> string \<Rightarrow> string \<Rightarrow> error + string" where
  "re_subn ver ic lit repl text =
     (case tokenize repl of
        (ts, dangling) \<Rightarrow>
          (case parse_template ver dangling ts of
             Inl e \<Rightarrow> Inl e
           | Inr ps \<Rightarrow> Inr (replace_literal ic lit (render ps) text)))"

section \<open>\<^verbatim>\<open>un_expand\<close>\<close>

text \<open>
  \<^verbatim>\<open>originals.pop()\<close> removes an element of the set that Python chooses; \<open>pick\<close> is
  that choice, an index into the list that holds the set. Popping the empty set raises
  \<open>KeyError\<close>.
\<close>

definition set_pop :: "(string list \<Rightarrow> nat) \<Rightarrow> string list \<Rightarrow> error + string \<times> string list" where
  "set_pop pick s =
     (if s = [] then Inl KeyError
      else (let x = s ! (pick s mod length s) in Inr (x, removeAll x s)))"

text \<open>\<^verbatim>\<open>_sanity_check\<close>: one warning for each replacement with more than one original.\<close>

definition sanity_check :: "MacroExpander \<Rightarrow> string \<Rightarrow> error + MacroExpander" where
  "sanity_check self file_name =
     (case reverse self file_name of
        None \<Rightarrow> Inl KeyError
      | Some entries \<Rightarrow>
          Inr (self\<lparr>warnings := warnings self @
                 map (\<lambda>(replacement, n, originals). NotAccurate replacement originals)
                   (filter (\<lambda>(replacement, n, originals). length originals > 1) entries)\<rparr>))"

text \<open>
  The loop of \<^verbatim>\<open>un_expand\<close> over the items of \<^verbatim>\<open>self.reverse[file_name]\<close>. Each round
  pops one original out of the entry's set, in place, and then replaces in the text; an
  exception leaves the sets as they are at that moment. The result is the outcome and
  the entries after the loop.
\<close>

fun un_expand_loop ::
  "re_version \<Rightarrow> (string list \<Rightarrow> nat) \<Rightarrow> (string \<Rightarrow> string \<Rightarrow> string \<Rightarrow> string) option \<Rightarrow> string
     \<Rightarrow> (string \<times> nat \<times> string list) list \<Rightarrow> string
     \<Rightarrow> (error + string) \<times> (string \<times> nat \<times> string list) list" where
  "un_expand_loop ver pick ug file_name [] text = (Inr text, [])"
| "un_expand_loop ver pick ug file_name ((replacement, n, originals) # entries) text =
     (case set_pop pick originals of
        Inl e \<Rightarrow> (Inl e, (replacement, n, originals) # entries)
      | Inr (original_text, originals') \<Rightarrow>
          (case (case ug of
                   Some u \<Rightarrow> re_subn ver True replacement (u file_name replacement original_text) text
                 | None \<Rightarrow> re_subn ver False replacement original_text text) of
             Inl e \<Rightarrow> (Inl e, (replacement, n, originals') # entries)
           | Inr text' \<Rightarrow>
               (case un_expand_loop ver pick ug file_name entries text' of
                  (res, entries') \<Rightarrow> (res, (replacement, n, originals') # entries'))))"

definition un_expand ::
  "re_version \<Rightarrow> (string list \<Rightarrow> nat) \<Rightarrow> MacroExpander \<Rightarrow> string \<Rightarrow> string \<Rightarrow> (error + string) \<times> MacroExpander" where
  "un_expand ver pick self file_name text =
     (case reverse self file_name of
        None \<Rightarrow> (Inr text, self)
      | Some entries \<Rightarrow>
          (case sanity_check self file_name of
             Inl e \<Rightarrow> (Inl e, self)
           | Inr self1 \<Rightarrow>
               (case un_expand_loop ver pick (un_generator self1) file_name entries text of
                  (res, entries') \<Rightarrow> (res, self1\<lparr>reverse := (reverse self1)(file_name \<mapsto> entries')\<rparr>))))"

section \<open>MacroExpanderRouter\<close>

text \<open>
  The router holds a dictionary from glob pattern to expander object. One expander
  object may stand under several patterns (the router of \<^verbatim>\<open>aurigae_macros.py\<close> registers
  one under two), so a route holds a reference and the expanders live in a store.
  \<^verbatim>\<open>fnmatch\<close> is library code and a parameter of the router's functions.
\<close>

record MacroExpanderRouter =
  all_macros :: "(string \<times> nat) list"

type_synonym store = "nat \<Rightarrow> MacroExpander"

text \<open>
  The loop of \<^verbatim>\<open>choose_expander\<close> with its three variables \<^verbatim>\<open>matches\<close>,
  \<^verbatim>\<open>chosen_expander\<close> and \<^verbatim>\<open>chosen_pattern\<close>.
\<close>

fun choose_loop ::
  "(string \<Rightarrow> string \<Rightarrow> bool) \<Rightarrow> string \<Rightarrow> (string \<times> nat) list
     \<Rightarrow> string list \<times> nat option \<times> string option
     \<Rightarrow> string list \<times> nat option \<times> string option" where
  "choose_loop fnmatch file_name [] acc = acc"
| "choose_loop fnmatch file_name ((pat, expander) # routes) (matches, chosen_expander, chosen_pattern) =
     (if fnmatch file_name pat
      then choose_loop fnmatch file_name routes (matches @ [file_name], Some expander, Some pat)
      else choose_loop fnmatch file_name routes (matches, chosen_expander, chosen_pattern))"

text \<open>
  With more than one match the source evaluates \<^verbatim>\<open>loggin.warn\<close>; no name
  \<^verbatim>\<open>loggin\<close> is bound in the module, and the evaluation raises \<open>NameError\<close>.
\<close>

definition choose_expander ::
  "(string \<Rightarrow> string \<Rightarrow> bool) \<Rightarrow> MacroExpanderRouter \<Rightarrow> string \<Rightarrow> error + nat option" where
  "choose_expander fnmatch self file_name =
     (case choose_loop fnmatch file_name (all_macros self) ([], None, None) of
        (matches, chosen_expander, chosen_pattern) \<Rightarrow>
          if length matches = 0 then Inr None
          else if length matches > 1 then Inl NameError
          else Inr chosen_expander)"

definition router_expand ::
  "(string \<Rightarrow> string \<Rightarrow> bool) \<Rightarrow> MacroExpanderRouter \<Rightarrow> store \<Rightarrow> string \<Rightarrow> string
     \<Rightarrow> (error + string) \<times> store" where
  "router_expand fnmatch self objs file_name text =
     (case choose_expander fnmatch self file_name of
        Inl e \<Rightarrow> (Inl e, objs)
      | Inr None \<Rightarrow> (Inr text, objs)
      | Inr (Some r) \<Rightarrow>
          (case expand (objs r) file_name text of
             (text', expander') \<Rightarrow> (Inr text', objs(r := expander'))))"

definition router_un_expand ::
  "(string \<Rightarrow> string \<Rightarrow> bool) \<Rightarrow> re_version \<Rightarrow> (string list \<Rightarrow> nat) \<Rightarrow> MacroExpanderRouter \<Rightarrow> store \<Rightarrow> string
     \<Rightarrow> string \<Rightarrow> (error + string) \<times> store" where
  "router_un_expand fnmatch ver pick self objs file_name text =
     (case choose_expander fnmatch self file_name of
        Inl e \<Rightarrow> (Inl e, objs)
      | Inr None \<Rightarrow> (Inr text, objs)
      | Inr (Some r) \<Rightarrow>
          (case un_expand ver pick (objs r) file_name text of
             (res, expander') \<Rightarrow> (res, objs(r := expander'))))"

text \<open>
  Shell-style matching as \<^verbatim>\<open>fnmatch\<close> does it on a POSIX system, where it is
  sensitive to case: a star matches any run of characters, a question mark one character,
  and a bracket expression one character of its class. A bracket expression runs to the
  first closing bracket after its first character (after a leading exclamation mark, which
  negates the class); without a closing bracket the opening bracket is an ordinary
  character. The class lists characters and ranges \<^verbatim>\<open>lo-hi\<close>.
\<close>

fun class_mem :: "char \<Rightarrow> string \<Rightarrow> bool" where
  "class_mem c (lo # d # hi # r) =
     (if d = CHR ''-'' then ((of_char lo :: nat) \<le> of_char c \<and> (of_char c :: nat) \<le> of_char hi) \<or> class_mem c r
      else c = lo \<or> class_mem c (d # hi # r))"
| "class_mem c (x # r) = (c = x \<or> class_mem c r)"
| "class_mem c [] = False"

definition bracket :: "string \<Rightarrow> (bool \<times> string \<times> string) option" where
  "bracket p =
     (let neg = (take 1 p = ''!'');
          q = (if neg then drop 1 p else p);
          body = take 1 q @ takeWhile (\<lambda>x. x \<noteq> CHR '']'') (drop 1 q)
      in if length body < length q then Some (neg, body, drop (Suc (length body)) q) else None)"

function fnmatch_glob :: "string \<Rightarrow> string \<Rightarrow> bool" where
  "fnmatch_glob [] [] = True"
| "fnmatch_glob [] (p # ps) = (p = CHR ''*'' \<and> fnmatch_glob [] ps)"
| "fnmatch_glob (c # cs) [] = False"
| "fnmatch_glob (c # cs) (p # ps) =
     (if p = CHR ''*'' then fnmatch_glob (c # cs) ps \<or> fnmatch_glob cs (p # ps)
      else if p = CHR ''?'' then fnmatch_glob cs ps
      else if p = CHR ''['' then
        (case bracket ps of
           None \<Rightarrow> c = CHR ''['' \<and> fnmatch_glob cs ps
         | Some (neg, body, rest) \<Rightarrow>
             (if neg then (if class_mem c body then False else fnmatch_glob cs rest)
              else class_mem c body \<and> fnmatch_glob cs rest))
      else p = c \<and> fnmatch_glob cs ps)"
  by pat_completeness auto
termination
  by (relation "measures [\<lambda>(name, pat). length name, \<lambda>(name, pat). length pat]") auto

section \<open>The expander of \<^verbatim>\<open>aurigae_macros.py\<close>\<close>

text \<open>
  \<^verbatim>\<open>re.match("PARAM_(.+)_PARAM", replacement)\<close>: the text must start with
  \<^verbatim>\<open>PARAM_\<close>; the group is the longest run of at least one character, none of them a
  newline, that is followed by \<^verbatim>\<open>_PARAM\<close>.
\<close>

definition param_group :: "string \<Rightarrow> string option" where
  "param_group s =
     (if take 6 s = ''PARAM_'' then
        (let line = takeWhile (\<lambda>c. c \<noteq> CHR 0x0A) (drop 6 s)
         in map_option (\<lambda>k. take k line)
              (find (\<lambda>k. take 6 (drop k line) = ''_PARAM'') (rev [1 ..< length line - 5])))
      else None)"

definition aurigae_un_generator :: "string \<Rightarrow> string \<Rightarrow> string \<Rightarrow> string" where
  "aurigae_un_generator file_name replacement macro_name =
     ''{'' @ (case param_group replacement of Some unexpanded \<Rightarrow> unexpanded | None \<Rightarrow> macro_name) @ ''}''"

definition aurigae_generator :: "string \<Rightarrow> string \<Rightarrow> string" where
  "aurigae_generator file_name macro_name = ''PARAM_'' @ lower macro_name @ ''_PARAM''"

definition aurigae_expander :: MacroExpander where
  "aurigae_expander =
     init macro_pattern None (Some aurigae_generator) (Some aurigae_un_generator)"

definition aurigae_macro_router :: MacroExpanderRouter where
  "aurigae_macro_router = \<lparr>all_macros = [(''*.sql'', 0), (''*.bteq'', 0)]\<rparr>"

definition aurigae_store :: store where
  "aurigae_store = (\<lambda>r. aurigae_expander)"

section \<open>Notions used in the statements\<close>

text \<open>A text without a backslash: as a replacement template it stands for itself.\<close>

definition plain :: "string \<Rightarrow> bool" where
  "plain s = list_all (\<lambda>c. c \<noteq> backslash) s"

text \<open>
  The recovered token of \<^verbatim>\<open>un_expand\<close> for a popped original: the un-generator's
  result when one is configured, the original otherwise.
\<close>

definition recovered ::
  "(string \<Rightarrow> string \<Rightarrow> string \<Rightarrow> string) option \<Rightarrow> string \<Rightarrow> string \<Rightarrow> string \<Rightarrow> string" where
  "recovered ug file_name replacement original =
     (case ug of Some u \<Rightarrow> u file_name replacement original | None \<Rightarrow> original)"

text \<open>The originals that the loop of \<^verbatim>\<open>un_expand\<close> pops, one for each entry.\<close>

definition chosen :: "(string list \<Rightarrow> nat) \<Rightarrow> (string \<times> nat \<times> string list) list \<Rightarrow> string list" where
  "chosen pick entries = map (\<lambda>(r, n, os). os ! (pick os mod length os)) entries"

text \<open>
  Every set of originals of the expander has an element. It holds of a new expander, and
  \<^verbatim>\<open>expand\<close> keeps it; \<^verbatim>\<open>un_expand\<close> is what empties the sets.
\<close>

definition originals_nonempty :: "MacroExpander \<Rightarrow> bool" where
  "originals_nonempty s = (\<forall>f. list_all (\<lambda>(r, n, os). os \<noteq> []) (entries_of s f))"

text \<open>
  An un-generator that turns \<^verbatim>\<open>${name}\<close> into \<^verbatim>\<open>\name\<close>
  (\<^verbatim>\<open>lambda f, r, o: "\\" + o[2:-1]\<close>), and an expander whose mapping sends two names to
  one value.
\<close>

definition slash_un_generator :: "string \<Rightarrow> string \<Rightarrow> string \<Rightarrow> string" where
  "slash_un_generator file_name replacement original = backslash # drop 2 (butlast original)"

definition slash_expander :: MacroExpander where
  "slash_expander =
     init macro_pattern (Some [''a'' \<mapsto> ''X'', ''q'' \<mapsto> ''X'', ''n'' \<mapsto> ''Y'']) None
       (Some slash_un_generator)"

section \<open>Properties of \<^verbatim>\<open>pattern.sub\<close>\<close>

lemma sub_loop_none:
  "rx t pos adv = None \<Longrightarrow> sub_loop rx f t pos adv st = (drop pos t, st)"
  by (subst sub_loop.simps) simp

lemma sub_loop_stop:
  "rx t pos adv = Some (b, e, g) \<Longrightarrow> \<not> valid_match t pos adv b e
     \<Longrightarrow> sub_loop rx f t pos adv st = (drop pos t, st)"
  by (subst sub_loop.simps) simp

lemma sub_loop_step:
  "rx t pos adv = Some (b, e, g) \<Longrightarrow> valid_match t pos adv b e
     \<Longrightarrow> sub_loop rx f t pos adv st =
         (take (b - pos) (drop pos t) @ fst (f (take (e - b) (drop b t)) g st)
            @ fst (sub_loop rx f t e (e = b) (snd (f (take (e - b) (drop b t)) g st))),
          snd (sub_loop rx f t e (e = b) (snd (f (take (e - b) (drop b t)) g st))))"
  by (subst sub_loop.simps) (simp split: prod.splits)

text \<open>
  Two scans of the same text with the same pattern take the same steps, whatever their
  callbacks do: a relation between the two states that every pair of callback steps keeps,
  and under which the two callbacks return the same text, holds at the end, and the two
  results are the same text.
\<close>

lemma sub_loop_related:
  fixes f1 :: "string \<Rightarrow> string \<Rightarrow> 's \<Rightarrow> string \<times> 's"
    and f2 :: "string \<Rightarrow> string \<Rightarrow> 't \<Rightarrow> string \<times> 't"
  assumes "\<And>m g s1 s2. R s1 s2 \<Longrightarrow>
      fst (f1 m g s1) = fst (f2 m g s2) \<and> R (snd (f1 m g s1)) (snd (f2 m g s2))"
    and "R st1 st2"
  shows "fst (sub_loop rx f1 t pos adv st1) = fst (sub_loop rx f2 t pos adv st2) \<and>
      R (snd (sub_loop rx f1 t pos adv st1)) (snd (sub_loop rx f2 t pos adv st2))"
  using assms
proof (induction rx f1 t pos adv st1 arbitrary: st2 rule: sub_loop.induct)
  case (1 rx f1 t pos adv st)
  note step = "1.prems"(1) and rel = "1.prems"(2)
  show ?case
  proof (cases "rx t pos adv")
    case None
    then show ?thesis
      using rel by (simp add: sub_loop_none)
  next
    case (Some m)
    obtain b e g where m: "m = (b, e, g)"
      by (cases m) auto
    show ?thesis
    proof (cases "valid_match t pos adv b e")
      case False
      then show ?thesis
        using rel Some m by (simp add: sub_loop_stop)
    next
      case True
      let ?mt = "take (e - b) (drop b t)"
      have st: "fst (f1 ?mt g st) = fst (f2 ?mt g st2) \<and> R (snd (f1 ?mt g st)) (snd (f2 ?mt g st2))"
        by (rule step [OF rel])
      have IH: "fst (sub_loop rx f1 t e (e = b) (snd (f1 ?mt g st)))
            = fst (sub_loop rx f2 t e (e = b) (snd (f2 ?mt g st2))) \<and>
          R (snd (sub_loop rx f1 t e (e = b) (snd (f1 ?mt g st))))
            (snd (sub_loop rx f2 t e (e = b) (snd (f2 ?mt g st2))))"
        using Some m st by (intro "1.IH" [OF _ refl refl True prod.collapse step]) simp_all
      show ?thesis
        using Some m True st IH by (simp add: sub_loop_step)
    qed
  qed
qed

lemma segment_join:
  assumes "pos \<le> b" "b \<le> e" "e \<le> length t"
  shows "take (b - pos) (drop pos t) @ take (e - b) (drop b t) @ drop e t = drop pos t"
proof -
  have 1: "drop b t = drop (b - pos) (drop pos t)"
    using assms by simp
  have 2: "drop e t = drop (e - b) (drop b t)"
    using assms by simp
  have "take (e - b) (drop b t) @ drop e t = drop b t"
    unfolding 2 by (rule append_take_drop_id)
  then show ?thesis
    unfolding 1 by (metis append_take_drop_id)
qed

text \<open>The scan with a callback that copies each match rebuilds the text.\<close>

lemma sub_loop_copy:
  "fst (sub_loop rx (\<lambda>(m::string) (g::string) (u::unit). (m, u)) t pos adv ()) = drop pos t"
proof (induction rx "\<lambda>(m::string) (g::string) (u::unit). (m, u)" t pos adv "()"
    rule: sub_loop.induct)
  case (1 rx t pos adv)
  show ?case
  proof (cases "rx t pos adv")
    case None
    then show ?thesis by (simp add: sub_loop_none)
  next
    case (Some m)
    obtain b e g where m: "m = (b, e, g)"
      by (cases m) auto
    show ?thesis
    proof (cases "valid_match t pos adv b e")
      case False
      then show ?thesis
        using Some m by (simp add: sub_loop_stop)
    next
      case True
      have IH: "fst (sub_loop rx (\<lambda>m g (u::unit). (m, u)) t e (e = b) ()) = drop e t"
        using Some m by (intro "1.hyps" [OF _ refl refl True]) simp_all
      show ?thesis
        using Some m True IH segment_join [of pos b e t]
        by (simp add: sub_loop_step valid_match_def)
    qed
  qed
qed

text \<open>
  So does the scan with any callback that returns the match as it is, in every state
  of an invariant that the callback keeps.
\<close>

lemma sub_loop_identity:
  assumes "\<And>m g s. I s \<Longrightarrow> fst (f m g s) = m \<and> I (snd (f m g s))" and "I st"
  shows "fst (sub_loop rx f t pos adv st) = drop pos t"
proof -
  have "fst (sub_loop rx f t pos adv st)
        = fst (sub_loop rx (\<lambda>m g (u::unit). (m, u)) t pos adv ()) \<and>
      I (snd (sub_loop rx f t pos adv st))"
    by (rule sub_loop_related [where R = "\<lambda>s u. I s"]) (use assms in auto)
  then show ?thesis
    by (simp add: sub_loop_copy)
qed

text \<open>An invariant that every callback step keeps holds after the scan.\<close>

lemma sub_loop_invariant:
  assumes "\<And>m g s. I s \<Longrightarrow> I (snd (f m g s))" and "I st"
  shows "I (snd (sub_loop rx f t pos adv st))"
proof -
  have "fst (sub_loop rx f t pos adv st) = fst (sub_loop rx f t pos adv st) \<and>
      (snd (sub_loop rx f t pos adv st) = snd (sub_loop rx f t pos adv st) \<and>
       I (snd (sub_loop rx f t pos adv st)))"
    by (rule sub_loop_related [where R = "\<lambda>s1 s2. s1 = s2 \<and> I s1"]) (use assms in auto)
  then show ?thesis by simp
qed

section \<open>Properties of \<^verbatim>\<open>_substitution\<close>\<close>

lemma map_of_dict_set: "map_of (dict_set k v kvs) = (map_of kvs)(k \<mapsto> v)"
  by (induction kvs) (auto simp: fun_eq_iff)

text \<open>The configuration of an expander never changes.\<close>

lemma substitution_config:
  "pattern (snd (substitution f m g s)) = pattern s"
  "mapping (snd (substitution f m g s)) = mapping s"
  "generator (snd (substitution f m g s)) = generator s"
  "un_generator (snd (substitution f m g s)) = un_generator s"
  by (simp_all add: substitution_def Let_def split: option.splits prod.splits)

text \<open>
  Without mapping and generator: the match is returned as it is, one warning is logged,
  the match is recorded under itself, and what was recorded before stays recorded.
\<close>

lemma substitution_unresolved:
  assumes "mapping s = None" "generator s = None"
  shows "fst (substitution f m g s) = m"
    and "warnings (snd (substitution f m g s)) = warnings s @ [CouldNotExpand m]"
    and "\<exists>n os. map_of (entries_of (snd (substitution f m g s)) f) m = Some (n, os) \<and> m \<in> set os"
    and "map_of (entries_of s f) m' = Some (n', os') \<Longrightarrow> m' \<in> set os'
      \<Longrightarrow> \<exists>n os. map_of (entries_of (snd (substitution f m g s)) f) m' = Some (n, os) \<and> m' \<in> set os"
  using assms
  by (auto simp: substitution_def Let_def entries_of_def map_of_dict_set split: option.splits)

text \<open>
  Without a generator the value depends on the mapping and the match only, and the new
  entry of the file on its old entry only.
\<close>

lemma substitution_no_generator:
  assumes "generator s1 = None" "generator s2 = None" "mapping s1 = mapping s2"
  shows "fst (substitution f1 m g s1) = fst (substitution f2 m g s2)"
    and "reverse s1 f1 = reverse s2 f2 \<Longrightarrow>
      reverse (snd (substitution f1 m g s1)) f1 = reverse (snd (substitution f2 m g s2)) f2"
  using assms
  by (auto simp: substitution_def Let_def entries_of_def split: option.splits)

text \<open>The order of resolution: static mapping, then generator, then the match itself.\<close>

lemma substitution_value:
  "fst (substitution f m g s) =
     (case (case mapping s of None \<Rightarrow> None | Some d \<Rightarrow> d g) of
        Some v \<Rightarrow> v
      | None \<Rightarrow> (case generator s of Some gen \<Rightarrow> gen f g | None \<Rightarrow> m))"
  by (simp add: substitution_def Let_def split: option.splits)

text \<open>No call of \<^verbatim>\<open>_substitution\<close> or \<^verbatim>\<open>expand\<close> leaves an empty set of originals.\<close>

lemma dict_set_all:
  "P (k, v) \<Longrightarrow> list_all P kvs \<Longrightarrow> list_all P (dict_set k v kvs)"
  by (induction kvs) auto

lemma substitution_entries:
  "entries_of (snd (substitution f m g s)) f =
     dict_set (fst (substitution f m g s))
       (case map_of (entries_of s f) (fst (substitution f m g s)) of
          Some (n, os) \<Rightarrow> (n + 1, List.insert m os)
        | None \<Rightarrow> (1, [m]))
       (entries_of s f)"
  by (simp add: substitution_def Let_def entries_of_def split: option.splits prod.splits)

lemma substitution_other_file:
  "f' \<noteq> f \<Longrightarrow> entries_of (snd (substitution f m g s)) f' = entries_of s f'"
  by (simp add: substitution_def Let_def entries_of_def split: option.splits)

lemma substitution_nonempty:
  assumes "originals_nonempty s"
  shows "originals_nonempty (snd (substitution f m g s))"
proof -
  have "list_all (\<lambda>(r, n, os). os \<noteq> []) (entries_of (snd (substitution f m g s)) f')" for f'
  proof (cases "f' = f")
    case False
    then show ?thesis
      using assms by (simp add: substitution_other_file originals_nonempty_def)
  next
    case True
    have "(\<lambda>(r, n, os). os \<noteq> [])
        (fst (substitution f m g s),
         case map_of (entries_of s f) (fst (substitution f m g s)) of
           Some (n, os) \<Rightarrow> (n + 1, List.insert m os)
         | None \<Rightarrow> (1, [m]))"
      by (auto simp: List.insert_def split: option.splits)
    then show ?thesis
      using True assms
      by (simp only: substitution_entries) (simp add: dict_set_all originals_nonempty_def)
  qed
  then show ?thesis
    by (simp add: originals_nonempty_def)
qed

lemma init_nonempty: "originals_nonempty (init p m g u)"
  by (simp add: originals_nonempty_def init_def entries_of_def)

lemma expand_nonempty:
  "originals_nonempty s \<Longrightarrow> originals_nonempty (snd (expand s f t))"
  unfolding expand_def re_sub_def
  by (rule sub_loop_invariant [where I = originals_nonempty]) (auto intro: substitution_nonempty)

section \<open>Properties of \<^verbatim>\<open>choose_expander\<close>\<close>

lemma choose_loop_no_match:
  "list_all (\<lambda>(pat, r). \<not> fnmatch file_name pat) routes
     \<Longrightarrow> choose_loop fnmatch file_name routes acc = acc"
  by (induction fnmatch file_name routes acc rule: choose_loop.induct) auto

lemma choose_expander_no_match:
  "list_all (\<lambda>(pat, r). \<not> fnmatch file_name pat) (all_macros self)
     \<Longrightarrow> choose_expander fnmatch self file_name = Inr None"
  by (simp add: choose_expander_def choose_loop_no_match)

section \<open>Properties of \<^verbatim>\<open>re.subn\<close> and of the loop of \<^verbatim>\<open>un_expand\<close>\<close>

lemma tokenize_plain: "plain s \<Longrightarrow> tokenize s = (map Chr s, False)"
  by (induction s rule: tokenize.induct) (auto simp: plain_def)

lemma parse_template_chr:
  "parse_template ver False (map Chr s) = Inr (map (\<lambda>c. Literal [c]) s)"
  by (induction s) (auto simp: followed_by_def)

lemma render_literals: "render (map (\<lambda>c. Literal [c]) s) = (\<lambda>m. s)"
  by (rule ext) (induction s, auto simp: render_def)

text \<open>A replacement without a backslash is put in as it is.\<close>

lemma re_subn_plain:
  "plain repl \<Longrightarrow> re_subn ver ic lit repl t = Inr (replace_literal ic lit (\<lambda>m. repl) t)"
  by (simp add: re_subn_def tokenize_plain parse_template_chr render_literals)

text \<open>One round of the loop.\<close>

lemma un_expand_loop_step:
  "un_expand_loop ver pick ug f ((r, n, os) # es) t =
     (if os = [] then (Inl KeyError, (r, n, os) # es)
      else (case re_subn ver (ug \<noteq> None) r (recovered ug f r (os ! (pick os mod length os))) t of
              Inl e \<Rightarrow> (Inl e, (r, n, removeAll (os ! (pick os mod length os)) os) # es)
            | Inr t' \<Rightarrow>
                (fst (un_expand_loop ver pick ug f es t'),
                 (r, n, removeAll (os ! (pick os mod length os)) os)
                   # snd (un_expand_loop ver pick ug f es t'))))"
  by (cases ug) (auto simp: set_pop_def recovered_def Let_def split: sum.splits prod.splits)

declare un_expand_loop.simps(2) [simp del]

text \<open>
  With non-empty sets and recovered tokens without a backslash the loop returns, and its
  text is the result of the replacements, entry by entry.
\<close>

lemma un_expand_loop_plain:
  assumes "\<forall>(r, n, os) \<in> set es. os \<noteq> [] \<and> (\<forall>orig \<in> set os. plain (recovered ug f r orig))"
  shows "fst (un_expand_loop ver pick ug f es t)
    = Inr (fold (\<lambda>((r, n, os), orig). replace_literal (ug \<noteq> None) r (\<lambda>m. recovered ug f r orig))
             (zip es (chosen pick es)) t)"
  using assms
proof (induction es arbitrary: t)
  case Nil
  then show ?case by (simp add: chosen_def)
next
  case (Cons a es)
  obtain r n os where a: "a = (r, n, os)"
    by (cases a) auto
  have ne: "os \<noteq> []" and pl: "plain (recovered ug f r (os ! (pick os mod length os)))"
    using Cons.prems a by auto
  have rest: "\<forall>(r, n, os) \<in> set es. os \<noteq> [] \<and> (\<forall>orig \<in> set os. plain (recovered ug f r orig))"
    using Cons.prems by simp
  show ?case
    using ne Cons.IH [OF rest]
    by (simp add: a un_expand_loop_step re_subn_plain [OF pl] chosen_def)
qed

lemma chosen_recorded:
  "\<forall>(r, n, os) \<in> set es. os \<noteq> []
     \<Longrightarrow> list_all2 (\<lambda>(r, n, os) orig. orig \<in> set os) es (chosen pick es)"
  by (induction es) (auto simp: chosen_def)

text \<open>A loop that returns has popped one original out of every entry.\<close>

lemma un_expand_loop_pops:
  "fst (un_expand_loop ver pick ug f es t) = Inr t'
     \<Longrightarrow> list_all2 (\<lambda>(r, n, os) (r', n', os'). r' = r \<and> n' = n \<and> (\<exists>x \<in> set os. set os' = set os - {x}))
           es (snd (un_expand_loop ver pick ug f es t))"
proof (induction es arbitrary: t)
  case Nil
  then show ?case by simp
next
  case (Cons a es)
  obtain r n os where a: "a = (r, n, os)"
    by (cases a) auto
  show ?case
    using Cons.prems Cons.IH
    by (auto simp: a un_expand_loop_step split: if_splits sum.splits)
qed

text \<open>
  With an empty set among the entries and recovered tokens without a backslash the loop
  raises \<open>KeyError\<close>.
\<close>

lemma un_expand_loop_empty_key_error:
  assumes "\<exists>(r, n, os) \<in> set es. os = []"
    and "\<forall>(r, n, os) \<in> set es. \<forall>orig \<in> set os. plain (recovered ug f r orig)"
  shows "fst (un_expand_loop ver pick ug f es t) = Inl KeyError"
  using assms
proof (induction es arbitrary: t)
  case Nil
  then show ?case by simp
next
  case (Cons a es)
  obtain r n os where a: "a = (r, n, os)"
    by (cases a) auto
  show ?case
  proof (cases "os = []")
    case True
    then show ?thesis by (simp add: a un_expand_loop_step)
  next
    case False
    then have 1: "\<exists>(r, n, os) \<in> set es. os = []"
      using Cons.prems a by auto
    have 2: "\<forall>(r, n, os) \<in> set es. \<forall>orig \<in> set os. plain (recovered ug f r orig)"
      using Cons.prems by simp
    have pl: "plain (recovered ug f r (os ! (pick os mod length os)))"
      using Cons.prems(2) a False by auto
    show ?thesis
      using False Cons.IH [OF 1 2]
      by (simp add: a un_expand_loop_step re_subn_plain [OF pl])
  qed
qed

text \<open>Popping one original out of every entry empties the sets of one element.\<close>

lemma popped_empty:
  assumes "list_all2 (\<lambda>(r, n, os) (r', n', os'). r' = r \<and> n' = n \<and> (\<exists>x \<in> set os. set os' = set os - {x}))
      es es1"
    and "\<exists>(r, n, os) \<in> set es. card (set os) = 1"
  shows "\<exists>(r, n, os) \<in> set es1. os = []"
  using assms
proof (induction rule: list_all2_induct)
  case Nil
  then show ?case by simp
next
  case (Cons a es b es1)
  obtain r n os where a: "a = (r, n, os)"
    by (cases a) auto
  obtain r' n' os' where b: "b = (r', n', os')"
    by (cases b) auto
  show ?case
  proof (cases "card (set os) = 1")
    case True
    then obtain y where "set os = {y}"
      by (auto simp: card_1_singleton_iff)
    then have "os' = []"
      using Cons.hyps(1) a b by auto
    then show ?thesis
      using b by simp
  next
    case False
    then have "\<exists>(r, n, os) \<in> set es. card (set os) = 1"
      using Cons.prems a by simp
    from Cons.IH [OF this] show ?thesis
      by simp
  qed
qed

lemma popped_subset:
  assumes "list_all2 (\<lambda>(r, n, os) (r', n', os'). r' = r \<and> n' = n \<and> (\<exists>x \<in> set os. set os' = set os - {x}))
      es es1"
    and "\<forall>(r, n, os) \<in> set es. \<forall>orig \<in> set os. Q r orig"
  shows "\<forall>(r, n, os) \<in> set es1. \<forall>orig \<in> set os. Q r orig"
  using assms
proof (induction rule: list_all2_induct)
  case Nil
  then show ?case by simp
next
  case (Cons a es b es1)
  obtain r n os where a: "a = (r, n, os)"
    by (cases a) auto
  obtain r' n' os' where b: "b = (r', n', os')"
    by (cases b) auto
  have "r' = r" and "set os' \<subseteq> set os"
    using Cons.hyps(1) a b by auto
  moreover have "\<forall>orig \<in> set os. Q r orig"
    using Cons.prems a by simp
  ultimately have "\<forall>orig \<in> set os'. Q r' orig"
    by blast
  moreover have "\<forall>(r, n, os) \<in> set es1. \<forall>orig \<in> set os. Q r orig"
    using Cons.IH Cons.prems by simp
  ultimately show ?case
    using b by simp
qed

text \<open>\<^verbatim>\<open>un_expand\<close> on a file with an entry, in terms of its loop.\<close>

lemma un_expand_entry:
  assumes "reverse self f = Some es"
  shows "fst (un_expand ver pick self f t) = fst (un_expand_loop ver pick (un_generator self) f es t)"
    and "entries_of (snd (un_expand ver pick self f t)) f = snd (un_expand_loop ver pick (un_generator self) f es t)"
    and "reverse (snd (un_expand ver pick self f t)) f = Some (snd (un_expand_loop ver pick (un_generator self) f es t))"
    and "un_generator (snd (un_expand ver pick self f t)) = un_generator self"
    and "warnings (snd (un_expand ver pick self f t)) = warnings self @
      map (\<lambda>(r, n, os). NotAccurate r os) (filter (\<lambda>(r, n, os). length os > 1) es)"
  using assms
  by (simp_all add: un_expand_def sanity_check_def entries_of_def split: prod.splits)

section \<open>Evaluation on concrete inputs\<close>

lemmas eval_defs =
  expand_def re_sub_def init_def sub_loop.simps valid_match_def macro_pattern_def macro_at_def
  is_word_def entries_of_def substitution_def un_expand_def un_expand_loop.simps
  sanity_check_def set_pop_def re_subn_def followed_by_def backslash_def render_def

lemmas aurigae_defs =
  aurigae_expander_def aurigae_generator_def aurigae_un_generator_def param_group_def
  lower_def lower_char_def

text \<open>
  C1. On a fresh expander with the pattern \<^verbatim>\<open>\$\{(\w+)\}\<close>, the static mapping
  \<^verbatim>\<open>{"foo": "BAR"}\<close>, no generator and no un-generator,
  \<^verbatim>\<open>expand(fileId, "select ${foo} from t")\<close> returns \<^verbatim>\<open>"select BAR from t"\<close>, and
  \<^verbatim>\<open>un_expand(fileId, ...)\<close> on that output returns \<^verbatim>\<open>"select ${foo} from t"\<close>, for
  every file identifier and whatever element \<^verbatim>\<open>pop\<close> chooses.
\<close>

theorem round_trip_fresh_expander:
  "fst (expand (init macro_pattern (Some [''foo'' \<mapsto> ''BAR'']) None None) fileId
          ''select ${foo} from t'') = ''select BAR from t'' \<and>
   fst (un_expand ver pick
          (snd (expand (init macro_pattern (Some [''foo'' \<mapsto> ''BAR'']) None None) fileId
                  ''select ${foo} from t''))
          fileId ''select BAR from t'') = Inr ''select ${foo} from t''"
  by (simp add: eval_defs)

text \<open>
  C2, at the input where the code leaves the claim. The expander of
  \<^verbatim>\<open>aurigae_macros.py\<close> has resolved \<^verbatim>\<open>${a}\<close> in file \<^verbatim>\<open>q.sql\<close> and now resolves
  \<^verbatim>\<open>${b}\<close>: the generator supplies the value, but the macro name \<^verbatim>\<open>b\<close> is not
  recorded, \<^verbatim>\<open>unmapped["q.sql"]\<close> is still \<^verbatim>\<open>{"a"}\<close>.
\<close>

theorem substitution_second_name_not_recorded:
  "fst (substitution ''q.sql'' ''${b}'' ''b''
          (snd (substitution ''q.sql'' ''${a}'' ''a'' aurigae_expander))) = ''PARAM_b_PARAM'' \<and>
   unmapped (snd (substitution ''q.sql'' ''${b}'' ''b''
          (snd (substitution ''q.sql'' ''${a}'' ''a'' aurigae_expander)))) ''q.sql'' = Some {''a''}"
  by (simp add: substitution_def entries_of_def init_def aurigae_defs)

text \<open>
  C3, at the input where the code leaves the claim. Expanding a text with the two
  generator-resolved names \<^verbatim>\<open>a\<close> and \<^verbatim>\<open>b\<close> leaves \<^verbatim>\<open>unmapped["q.sql"]\<close> equal to
  \<^verbatim>\<open>{"a"}\<close>: the second name is missing.
\<close>

theorem expand_unmapped_keeps_first_name_only:
  "fst (expand aurigae_expander ''q.sql'' ''select ${a}, ${b}'')
     = ''select PARAM_a_PARAM, PARAM_b_PARAM'' \<and>
   unmapped (snd (expand aurigae_expander ''q.sql'' ''select ${a}, ${b}'')) ''q.sql''
     = Some {''a''}"
  by (simp add: eval_defs aurigae_defs)

text \<open>
  C4 as stated fails: an expander without mapping and generator leaves \<^verbatim>\<open>${foo}\<close> in
  the text, and \<^verbatim>\<open>reverse["q.sql"]\<close> does get an entry for it, under the matched text.
\<close>

theorem unresolved_macro_enters_reverse:
  "fst (expand (init macro_pattern None None None) ''q.sql'' ''select ${foo}'')
     = ''select ${foo}'' \<and>
   reverse (snd (expand (init macro_pattern None None None) ''q.sql'' ''select ${foo}'')) ''q.sql''
     = Some [(''${foo}'', 1, [''${foo}''])]"
  by (simp add: eval_defs)

text \<open>
  C4, amended. When the static mapping and the generator are both absent, \<^verbatim>\<open>expand\<close>
  returns the text unchanged, logs one warning for each macro occurrence, in order, and
  records each occurrence in \<^verbatim>\<open>reverse[file_name]\<close> under its own matched text, with
  that text among the originals.
\<close>

theorem expand_unresolved:
  assumes "mapping self = None" and "generator self = None"
  shows "fst (expand self file_name t) = t \<and>
    warnings (snd (expand self file_name t))
      = warnings self @ map CouldNotExpand (occurrences (pattern self) t) \<and>
    (\<forall>m \<in> set (occurrences (pattern self) t).
       \<exists>n os. map_of (entries_of (snd (expand self file_name t)) file_name) m = Some (n, os)
         \<and> m \<in> set os)"
proof -
  define I where "I = (\<lambda>s::MacroExpander. mapping s = None \<and> generator s = None)"
  define R where "R = (\<lambda>(s::MacroExpander) (acc::string list). I s \<and>
      warnings s = warnings self @ map CouldNotExpand acc \<and>
      list_all (\<lambda>m. \<exists>n os. map_of (entries_of s file_name) m = Some (n, os) \<and> m \<in> set os) acc)"
  have step: "fst (substitution file_name m g s) = fst (m, acc @ [m]) \<and>
      R (snd (substitution file_name m g s)) (snd (m, acc @ [m]))" if "R s acc" for m g s acc
  proof -
    from that have c: "mapping s = None" "generator s = None"
      by (simp_all add: R_def I_def)
    show ?thesis
      using that substitution_unresolved [OF c, where f = file_name and m = m and g = g]
      by (auto simp: R_def I_def substitution_config list_all_iff)
  qed
  have "R self []"
    using assms by (simp add: R_def I_def)
  from sub_loop_related [of R "substitution file_name" "\<lambda>m g acc. (m, acc @ [m])", OF step this]
  have rel: "R (snd (expand self file_name t)) (occurrences (pattern self) t)"
    by (simp add: expand_def re_sub_def occurrences_def)
  have "fst (expand self file_name t) = t"
    unfolding expand_def re_sub_def
    by (rule sub_loop_identity [where I = I, THEN trans])
      (use assms in \<open>auto simp: I_def substitution_config substitution_unresolved\<close>)
  then show ?thesis
    using rel by (simp add: R_def list_all_iff)
qed

theorem expand_unresolved_witness:
  "mapping (init macro_pattern None None None) = None \<and>
   generator (init macro_pattern None None None) = None \<and>
   occurrences macro_pattern ''${a} and ${b}'' = [''${a}'', ''${b}''] \<and>
   fst (expand (init macro_pattern None None None) ''q.sql'' ''${a} and ${b}'')
     = ''${a} and ${b}'' \<and>
   warnings (snd (expand (init macro_pattern None None None) ''q.sql'' ''${a} and ${b}''))
     = [CouldNotExpand ''${a}'', CouldNotExpand ''${b}''] \<and>
   map_of (entries_of (snd (expand (init macro_pattern None None None) ''q.sql''
     ''${a} and ${b}'')) ''q.sql'') ''${b}'' = Some (1, [''${b}''])"
  using expand_unresolved [of "init macro_pattern None None None" "''q.sql''" "''${a} and ${b}''"]
  by (simp add: eval_defs occurrences_def)

text \<open>
  C5, at the input where the code leaves the claim. With the two patterns
  \<^verbatim>\<open>*.sql\<close> and \<^verbatim>\<open>a.*\<close>, which both match \<^verbatim>\<open>a.sql\<close>, \<^verbatim>\<open>choose_expander\<close> raises
  \<open>NameError\<close> and returns no expander.
\<close>

theorem choose_expander_two_matches_raises:
  "choose_expander fnmatch_glob \<lparr>all_macros = [(''*.sql'', 0), (''a.*'', 1)]\<rparr> ''a.sql''
     = Inl NameError"
  by (simp add: choose_expander_def)

text \<open>
  C6, at the input where the code leaves the claim. The mapping sends \<^verbatim>\<open>foo\<close> to
  \<^verbatim>\<open>bar\<close>, and the text comes back in upper case. Without an un-generator
  \<^verbatim>\<open>un_expand\<close> leaves \<^verbatim>\<open>BAR\<close>, a case-insensitive occurrence of the generated value,
  in the text; with an un-generator that returns the original, the same call replaces it.
\<close>

theorem un_expand_without_un_generator_is_case_sensitive:
  "fst (expand (init macro_pattern (Some [''foo'' \<mapsto> ''bar'']) None None) ''q.sql''
          ''select ${foo}'') = ''select bar'' \<and>
   fst (un_expand ver pick
          (snd (expand (init macro_pattern (Some [''foo'' \<mapsto> ''bar'']) None None) ''q.sql''
                  ''select ${foo}''))
          ''q.sql'' ''SELECT BAR'') = Inr ''SELECT BAR'' \<and>
   fst (un_expand ver pick
          (snd (expand (init macro_pattern (Some [''foo'' \<mapsto> ''bar'']) None
                          (Some (\<lambda>file_name replacement original. original))) ''q.sql''
                  ''select ${foo}''))
          ''q.sql'' ''SELECT BAR'') = Inr ''SELECT ${foo}''"
  by (simp add: eval_defs lower_char_def char_of_def bit_Suc_0_iff)

text \<open>
  C7 as stated fails: with an un-generator the generated value is replaced by the
  un-generator's result, which need not be a recorded original. The expander of
  \<^verbatim>\<open>aurigae_macros.py\<close> records the original \<^verbatim>\<open>${foo}\<close> and un-expands to \<^verbatim>\<open>{foo}\<close>,
  under either version of the \<^verbatim>\<open>re\<close> module.
\<close>

theorem un_generator_result_is_not_an_original:
  "fst (expand aurigae_expander ''q.sql'' ''select ${foo}'') = ''select PARAM_foo_PARAM'' \<and>
   reverse (snd (expand aurigae_expander ''q.sql'' ''select ${foo}'')) ''q.sql''
     = Some [(''PARAM_foo_PARAM'', 1, [''${foo}''])] \<and>
   fst (un_expand UpTo311 (\<lambda>s. 0) (snd (expand aurigae_expander ''q.sql'' ''select ${foo}''))
          ''q.sql'' ''select PARAM_foo_PARAM'') = Inr ''select {foo}'' \<and>
   fst (un_expand From312 (\<lambda>s. 0) (snd (expand aurigae_expander ''q.sql'' ''select ${foo}''))
          ''q.sql'' ''select PARAM_foo_PARAM'') = Inr ''select {foo}''"
  by (simp add: eval_defs aurigae_defs)

text \<open>
  C7, amended. For every file with an entry in \<^verbatim>\<open>reverse\<close>, \<^verbatim>\<open>un_expand\<close> logs a
  warning for every generated value whose set of originals has more than one element.
  When the sets of originals are all non-empty (as they are before the first
  \<^verbatim>\<open>un_expand\<close>, by \<open>init_nonempty\<close> and \<open>expand_nonempty\<close>) and no recovered token
  contains a backslash, it returns without raising, and its text is the result of
  replacing, entry by entry in the order of \<^verbatim>\<open>reverse\<close>, the occurrences of the
  generated value by the recovered token of one recorded original of that entry: the
  original itself when no un-generator is configured, the un-generator's result for it
  otherwise.
\<close>

theorem un_expand_first_call:
  assumes "reverse self f = Some es"
  shows "warnings (snd (un_expand ver pick self f t)) = warnings self @
        map (\<lambda>(r, n, os). NotAccurate r os) (filter (\<lambda>(r, n, os). length os > 1) es) \<and>
    ((\<forall>(r, n, os) \<in> set es.
         os \<noteq> [] \<and> (\<forall>orig \<in> set os. plain (recovered (un_generator self) f r orig))) \<longrightarrow>
     (\<exists>origs. list_all2 (\<lambda>(r, n, os) orig. orig \<in> set os) es origs \<and>
        fst (un_expand ver pick self f t)
          = Inr (fold (\<lambda>((r, n, os), orig).
                    replace_literal (un_generator self \<noteq> None) r
                      (\<lambda>m. recovered (un_generator self) f r orig))
                 (zip es origs) t)))"
proof -
  have w: "warnings (snd (un_expand ver pick self f t)) = warnings self @
      map (\<lambda>(r, n, os). NotAccurate r os) (filter (\<lambda>(r, n, os). length os > 1) es)"
    by (rule un_expand_entry(5) [OF assms])
  have r: "\<exists>origs. list_all2 (\<lambda>(r, n, os) orig. orig \<in> set os) es origs \<and>
      fst (un_expand ver pick self f t)
        = Inr (fold (\<lambda>((r, n, os), orig).
                  replace_literal (un_generator self \<noteq> None) r
                    (\<lambda>m. recovered (un_generator self) f r orig))
               (zip es origs) t)"
    if h: "\<forall>(r, n, os) \<in> set es.
         os \<noteq> [] \<and> (\<forall>orig \<in> set os. plain (recovered (un_generator self) f r orig))"
  proof -
    have ne: "\<forall>(r, n, os) \<in> set es. os \<noteq> []"
      using h by auto
    show ?thesis
      using chosen_recorded [OF ne, of pick] un_expand_loop_plain [OF h, of ver pick t]
        un_expand_entry(1) [OF assms, of ver pick t]
      by (intro exI [of _ "chosen pick es"]) simp
  qed
  show ?thesis
    using w r by blast
qed

text \<open>
  An instance, the collision of the spec: the generator of \<^verbatim>\<open>aurigae_macros.py\<close>
  sends \<^verbatim>\<open>Foo\<close> and \<^verbatim>\<open>foo\<close> to one value.
\<close>

theorem un_expand_first_call_witness:
  "reverse (snd (expand aurigae_expander ''q.sql'' ''select ${Foo}, ${foo}'')) ''q.sql''
     = Some [(''PARAM_foo_PARAM'', 2, [''${foo}'', ''${Foo}''])] \<and>
   plain (recovered (Some aurigae_un_generator) ''q.sql'' ''PARAM_foo_PARAM'' ''${foo}'') \<and>
   plain (recovered (Some aurigae_un_generator) ''q.sql'' ''PARAM_foo_PARAM'' ''${Foo}'') \<and>
   fst (un_expand UpTo311 (\<lambda>s. 0)
          (snd (expand aurigae_expander ''q.sql'' ''select ${Foo}, ${foo}''))
          ''q.sql'' ''select PARAM_foo_PARAM, PARAM_foo_PARAM'') = Inr ''select {foo}, {foo}'' \<and>
   warnings (snd (un_expand UpTo311 (\<lambda>s. 0)
          (snd (expand aurigae_expander ''q.sql'' ''select ${Foo}, ${foo}''))
          ''q.sql'' ''select PARAM_foo_PARAM, PARAM_foo_PARAM''))
     = [NotAccurate ''PARAM_foo_PARAM'' [''${foo}'', ''${Foo}'']]"
  using un_expand_first_call [of "snd (expand aurigae_expander ''q.sql'' ''select ${Foo}, ${foo}'')"
      "''q.sql''" "[(''PARAM_foo_PARAM'', 2, [''${foo}'', ''${Foo}''])]" UpTo311 "\<lambda>s. 0"
      "''select PARAM_foo_PARAM, PARAM_foo_PARAM''"]
  by (simp add: eval_defs aurigae_defs plain_def recovered_def char_of_def bit_Suc_0_iff)

text \<open>
  C8. For a file name that no registered glob pattern matches, the router's
  \<^verbatim>\<open>expand\<close> and \<^verbatim>\<open>un_expand\<close> return the text unchanged; for a file without an entry
  in \<^verbatim>\<open>reverse\<close>, the expander's \<^verbatim>\<open>un_expand\<close> returns the text unchanged. No call
  raises, and the expanders are left as they were.
\<close>

theorem no_route_no_entry_passthrough:
  "(list_all (\<lambda>(pat, r). \<not> fnmatch file_name pat) (all_macros router) \<longrightarrow>
      router_expand fnmatch router objs file_name t = (Inr t, objs) \<and>
      router_un_expand fnmatch ver pick router objs file_name t = (Inr t, objs)) \<and>
   (reverse self file_name = None \<longrightarrow> un_expand ver pick self file_name t = (Inr t, self))"
  by (simp add: router_expand_def router_un_expand_def choose_expander_no_match un_expand_def)

theorem no_route_no_entry_passthrough_witness:
  "list_all (\<lambda>(pat, r). \<not> fnmatch_glob ''readme.md'' pat) (all_macros aurigae_macro_router) \<and>
   router_expand fnmatch_glob aurigae_macro_router aurigae_store ''readme.md'' ''see ${foo}''
     = (Inr ''see ${foo}'', aurigae_store) \<and>
   router_un_expand fnmatch_glob UpTo311 (\<lambda>s. 0) aurigae_macro_router aurigae_store ''readme.md''
       ''see PARAM_foo_PARAM''
     = (Inr ''see PARAM_foo_PARAM'', aurigae_store) \<and>
   reverse aurigae_expander ''query.sql'' = None \<and>
   un_expand UpTo311 (\<lambda>s. 0) aurigae_expander ''query.sql'' ''PARAM_foo_PARAM''
     = (Inr ''PARAM_foo_PARAM'', aurigae_expander)"
  using no_route_no_entry_passthrough [of fnmatch_glob "''readme.md''" aurigae_macro_router
      aurigae_store "''see ${foo}''" UpTo311 "\<lambda>s. 0" aurigae_expander]
    no_route_no_entry_passthrough [of fnmatch_glob "''readme.md''" aurigae_macro_router
      aurigae_store "''see PARAM_foo_PARAM''" UpTo311 "\<lambda>s. 0" aurigae_expander]
    no_route_no_entry_passthrough [of fnmatch_glob "''query.sql''" aurigae_macro_router
      aurigae_store "''PARAM_foo_PARAM''" UpTo311 "\<lambda>s. 0" aurigae_expander]
  by (simp add: aurigae_macro_router_def aurigae_expander_def init_def)

text \<open>
  C9. With a fixed static mapping and no generator, \<^verbatim>\<open>expand\<close> is deterministic. Take
  two invocations with the same pattern and mapping and the same text, on any two
  expander states and file identifiers: the output texts are identical, and where the two
  file identifiers start from the same entry of \<^verbatim>\<open>reverse\<close> (both fresh, in
  particular), their entries of \<^verbatim>\<open>reverse\<close> are identical afterwards.
\<close>

theorem expand_deterministic:
  assumes "pattern e1 = pattern e2" and "mapping e1 = mapping e2"
    and "generator e1 = None" and "generator e2 = None"
  shows "fst (expand e1 f1 t) = fst (expand e2 f2 t) \<and>
    (reverse e1 f1 = reverse e2 f2 \<longrightarrow>
       reverse (snd (expand e1 f1 t)) f1 = reverse (snd (expand e2 f2 t)) f2)"
proof -
  define C where "C = (\<lambda>(s1::MacroExpander) (s2::MacroExpander).
      generator s1 = None \<and> generator s2 = None \<and> mapping s1 = mapping s2)"
  define R where "R = (\<lambda>s1 s2. C s1 s2 \<and> reverse s1 f1 = reverse s2 f2)"
  have C: "fst (substitution f1 m g s1) = fst (substitution f2 m g s2) \<and>
      C (snd (substitution f1 m g s1)) (snd (substitution f2 m g s2))" if "C s1 s2" for m g s1 s2
    using that substitution_no_generator(1) [of s1 s2 f1 m g f2]
    by (simp add: C_def substitution_config)
  have R: "fst (substitution f1 m g s1) = fst (substitution f2 m g s2) \<and>
      R (snd (substitution f1 m g s1)) (snd (substitution f2 m g s2))" if "R s1 s2" for m g s1 s2
    using that C [of s1 s2 m g] substitution_no_generator(2) [of s1 s2 f1 f2 m g]
    by (simp add: R_def C_def)
  have "C e1 e2"
    using assms by (simp add: C_def)
  from sub_loop_related [of C "substitution f1" "substitution f2", OF C this]
  have 1: "fst (expand e1 f1 t) = fst (expand e2 f2 t)"
    using assms(1) by (simp add: expand_def re_sub_def)
  have 2: "reverse (snd (expand e1 f1 t)) f1 = reverse (snd (expand e2 f2 t)) f2"
    if "reverse e1 f1 = reverse e2 f2"
  proof -
    have "R e1 e2"
      using that \<open>C e1 e2\<close> by (simp add: R_def)
    from sub_loop_related [of R "substitution f1" "substitution f2", OF R this]
    show ?thesis
      using assms(1) by (simp add: expand_def re_sub_def R_def)
  qed
  show ?thesis
    using 1 2 by simp
qed

text \<open>
  An instance runs one expander twice, on the fresh identifiers \<^verbatim>\<open>a.sql\<close> and then
  \<^verbatim>\<open>b.sql\<close>.
\<close>

theorem expand_deterministic_witness:
  "generator (init macro_pattern (Some [''foo'' \<mapsto> ''BAR'']) None None) = None \<and>
   reverse (init macro_pattern (Some [''foo'' \<mapsto> ''BAR'']) None None) ''a.sql'' = None \<and>
   reverse (snd (expand (init macro_pattern (Some [''foo'' \<mapsto> ''BAR'']) None None) ''a.sql''
     ''select ${foo}, ${x}'')) ''b.sql'' = None \<and>
   fst (expand (init macro_pattern (Some [''foo'' \<mapsto> ''BAR'']) None None) ''a.sql''
     ''select ${foo}, ${x}'')
     = fst (expand (snd (expand (init macro_pattern (Some [''foo'' \<mapsto> ''BAR'']) None None)
         ''a.sql'' ''select ${foo}, ${x}'')) ''b.sql'' ''select ${foo}, ${x}'') \<and>
   reverse (snd (expand (init macro_pattern (Some [''foo'' \<mapsto> ''BAR'']) None None) ''a.sql''
     ''select ${foo}, ${x}'')) ''a.sql''
     = reverse (snd (expand (snd (expand (init macro_pattern (Some [''foo'' \<mapsto> ''BAR'']) None
         None) ''a.sql'' ''select ${foo}, ${x}'')) ''b.sql'' ''select ${foo}, ${x}'')) ''b.sql''"
  using expand_deterministic [of "init macro_pattern (Some [''foo'' \<mapsto> ''BAR'']) None None"
      "snd (expand (init macro_pattern (Some [''foo'' \<mapsto> ''BAR'']) None None) ''a.sql''
         ''select ${foo}, ${x}'')" "''a.sql''" "''select ${foo}, ${x}''" "''b.sql''"]
  by (simp add: eval_defs)

text \<open>
  C10 as stated fails: the second call need not reach the empty set. The mapping sends
  \<^verbatim>\<open>a\<close> and \<^verbatim>\<open>q\<close> to \<^verbatim>\<open>X\<close> and \<^verbatim>\<open>n\<close> to \<^verbatim>\<open>Y\<close>, so \<^verbatim>\<open>Y\<close> has exactly one
  recorded original; the un-generator writes \<^verbatim>\<open>${name}\<close> as a backslash and the name.
  The first call pops \<^verbatim>\<open>${a}\<close> and returns. The second call pops \<^verbatim>\<open>${q}\<close> for
  \<^verbatim>\<open>X\<close>, \<^verbatim>\<open>re.subn\<close> rejects the template \<^verbatim>\<open>\q\<close> with \<^verbatim>\<open>re.error\<close>, and the call
  raises that error, not \<open>KeyError\<close>, before it comes to \<^verbatim>\<open>Y\<close>. Both versions of the
  \<^verbatim>\<open>re\<close> module do so.
\<close>

theorem second_un_expand_raises_re_error:
  "entries_of (snd (expand slash_expander ''q.sql'' ''${a} ${q} ${n}'')) ''q.sql''
     = [(''X'', 2, [''${q}'', ''${a}'']), (''Y'', 1, [''${n}''])] \<and>
   fst (un_expand UpTo311 (\<lambda>s. length s - 1)
          (snd (expand slash_expander ''q.sql'' ''${a} ${q} ${n}''))
          ''q.sql'' ''X Y'') = Inr [CHR 0x07, CHR '' '', CHR 0x0A] \<and>
   fst (un_expand UpTo311 (\<lambda>s. 0)
          (snd (un_expand UpTo311 (\<lambda>s. length s - 1)
                  (snd (expand slash_expander ''q.sql'' ''${a} ${q} ${n}'')) ''q.sql'' ''X Y''))
          ''q.sql'' ''X Y'') = Inl ReError \<and>
   fst (un_expand From312 (\<lambda>s. length s - 1)
          (snd (expand slash_expander ''q.sql'' ''${a} ${q} ${n}''))
          ''q.sql'' ''X Y'') = Inr [CHR 0x07, CHR '' '', CHR 0x0A] \<and>
   fst (un_expand From312 (\<lambda>s. 0)
          (snd (un_expand From312 (\<lambda>s. length s - 1)
                  (snd (expand slash_expander ''q.sql'' ''${a} ${q} ${n}'')) ''q.sql'' ''X Y''))
          ''q.sql'' ''X Y'') = Inl ReError"
  by (simp add: eval_defs slash_expander_def slash_un_generator_def escapes_def ascii_letter_def
      oct_digit_def followed_by_def lower_char_def char_of_def bit_Suc_0_iff)

text \<open>
  C10, amended. If a call of \<^verbatim>\<open>un_expand\<close> on a file returns, it has removed one original
  from the set of every generated value of the file. Consequently, if one of these sets
  had exactly one element and no recovered token of the file contains a backslash, a second
  call on the file raises \<open>KeyError\<close> (pop from an empty set) instead of returning text.
\<close>

theorem un_expand_consumes_originals:
  assumes "reverse self f = Some es" and "fst (un_expand ver pick1 self f t1) = Inr t1'"
  shows "list_all2
        (\<lambda>(r, n, os) (r', n', os'). r' = r \<and> n' = n \<and> (\<exists>x \<in> set os. set os' = set os - {x}))
        es (entries_of (snd (un_expand ver pick1 self f t1)) f) \<and>
    ((\<exists>(r, n, os) \<in> set es. card (set os) = 1) \<and>
     (\<forall>(r, n, os) \<in> set es. \<forall>orig \<in> set os. plain (recovered (un_generator self) f r orig)) \<longrightarrow>
       fst (un_expand ver pick2 (snd (un_expand ver pick1 self f t1)) f t2) = Inl KeyError)"
proof -
  let ?ug = "un_generator self"
  let ?s1 = "snd (un_expand ver pick1 self f t1)"
  let ?es1 = "snd (un_expand_loop ver pick1 ?ug f es t1)"
  let ?P = "\<lambda>(r, n, os) (r', n', os'). r' = r \<and> n' = n \<and> (\<exists>x \<in> set os. set os' = set os - {x})"
  have ret: "fst (un_expand_loop ver pick1 ?ug f es t1) = Inr t1'"
    using assms un_expand_entry(1) [OF assms(1)] by simp
  have pops: "list_all2 ?P es ?es1"
    by (rule un_expand_loop_pops [OF ret])
  have s1: "reverse ?s1 f = Some ?es1" "entries_of ?s1 f = ?es1" "un_generator ?s1 = ?ug"
    using un_expand_entry(2,3,4) [OF assms(1)] by simp_all
  have second: "fst (un_expand ver pick2 ?s1 f t2) = fst (un_expand_loop ver pick2 ?ug f ?es1 t2)"
    using un_expand_entry(1) [OF s1(1)] s1(3) by simp
  have a: "list_all2 ?P es (entries_of ?s1 f)"
    using pops s1(2) by simp
  have c: "fst (un_expand ver pick2 ?s1 f t2) = Inl KeyError"
    if "\<exists>(r, n, os) \<in> set es. card (set os) = 1"
      and "\<forall>(r, n, os) \<in> set es. \<forall>orig \<in> set os. plain (recovered ?ug f r orig)"
    unfolding second
    by (rule un_expand_loop_empty_key_error [OF popped_empty [OF pops that(1)]
          popped_subset [OF pops that(2)]])
  show ?thesis
    using a c by blast
qed

theorem un_expand_consumes_originals_witness:
  "reverse (snd (expand (init macro_pattern (Some [''foo'' \<mapsto> ''BAR'']) None None) ''q.sql''
     ''select ${foo}'')) ''q.sql'' = Some [(''BAR'', 1, [''${foo}''])] \<and>
   fst (un_expand UpTo311 (\<lambda>s. 0)
     (snd (expand (init macro_pattern (Some [''foo'' \<mapsto> ''BAR'']) None None) ''q.sql''
        ''select ${foo}'')) ''q.sql'' ''select BAR'') = Inr ''select ${foo}'' \<and>
   entries_of (snd (un_expand UpTo311 (\<lambda>s. 0)
     (snd (expand (init macro_pattern (Some [''foo'' \<mapsto> ''BAR'']) None None) ''q.sql''
        ''select ${foo}'')) ''q.sql'' ''select BAR'')) ''q.sql'' = [(''BAR'', 1, [])] \<and>
   card (set [''${foo}'']) = 1 \<and>
   plain (recovered None ''q.sql'' ''BAR'' ''${foo}'') \<and>
   fst (un_expand UpTo311 (\<lambda>s. 0) (snd (un_expand UpTo311 (\<lambda>s. 0)
     (snd (expand (init macro_pattern (Some [''foo'' \<mapsto> ''BAR'']) None None) ''q.sql''
        ''select ${foo}'')) ''q.sql'' ''select BAR'')) ''q.sql'' ''select BAR'') = Inl KeyError"
  using un_expand_consumes_originals [where
      self = "snd (expand (init macro_pattern (Some [''foo'' \<mapsto> ''BAR'']) None None) ''q.sql''
        ''select ${foo}'')"
      and f = "''q.sql''" and es = "[(''BAR'', 1, [''${foo}''])]" and ver = UpTo311
      and ?pick1.0 = "\<lambda>s. 0" and ?t1.0 = "''select BAR''" and t1' = "''select ${foo}''"
      and ?pick2.0 = "\<lambda>s. 0" and ?t2.0 = "''select BAR''"]
  by (simp add: eval_defs plain_def recovered_def)

end
